theory Spec2Isabelle
  imports Main "HOL-Library.Sublist"
begin

section \<open>Data model of validate.go\<close>

text \<open>
  Go strings are modelled as \<^typ>\<open>string\<close>, one \<^typ>\<open>char\<close> per character of the
  text.  A Go \<open>error\<close> value is modelled by its message; \<open>nil\<close> is \<open>None\<close>.
\<close>

type_synonym error = string

record Hyperlink =
  Url :: string
  IsWorking :: bool

record Document =
  Path :: string
  Type :: string
  IsValid :: bool
  Hyperlinks :: "Hyperlink list"

record Report =
  ResultOfValidation :: bool
  Directories :: "string list"
  Documents :: "Document list"
  InvalidHyperlinks :: "Hyperlink list"
  Date :: string

section \<open>The regular expressions of \<open>initializeMatchers\<close>\<close>

text \<open>
  The five patterns compiled by \<open>initializeMatchers\<close> use only four forms of the
  syntax of Go's \<open>regexp\<close> package: a literal character, \<open>.\<close> (any character but a
  line feed), \<open>.*\<close> (greedy repetition of \<open>.\<close>) and the named group
  \<open>(?P<url>.+?)\<close> (a captured, lazy, non-empty repetition of \<open>.\<close>).
\<close>

datatype item = Lit char | AnyChar | AnyStar | GroupAnyLazyPlus

definition newline :: char where
  "newline = CHR 0x0A"

definition dquote :: char where
  "dquote = CHR 0x22"

text \<open>\<open>regexp.MustCompile\<close>, for the forms above.\<close>

fun MustCompile :: "string \<Rightarrow> item list" where
  "MustCompile [] = []"
| "MustCompile (c # cs) =
     (if c = CHR ''.'' then
        (case cs of
           d # ds \<Rightarrow> if d = CHR ''*'' then AnyStar # MustCompile ds else AnyChar # MustCompile cs
         | [] \<Rightarrow> [AnyChar])
      else if c = CHR ''('' \<and> take 11 cs = ''?P<url>.+?)'' then GroupAnyLazyPlus # MustCompile (drop 11 cs)
      else Lit c # MustCompile cs)"

text \<open>
  Matching at the start of the input, in the priority order of a backtracking matcher
  (Go's leftmost-first semantics): the result is the list of captured groups and the
  input left after the match.  \<open>lazyGroup\<close> is the state inside the group after its
  first character: it prefers to leave the group.
\<close>

function matchHere :: "item list \<Rightarrow> string \<Rightarrow> (string list \<times> string) option"
  and lazyGroup :: "item list \<Rightarrow> string \<Rightarrow> string \<Rightarrow> (string list \<times> string) option" where
  "matchHere [] s = Some ([], s)"
| "matchHere (Lit c # p) s =
     (case s of [] \<Rightarrow> None | x # xs \<Rightarrow> if x = c then matchHere p xs else None)"
| "matchHere (AnyChar # p) s =
     (case s of [] \<Rightarrow> None | x # xs \<Rightarrow> if x \<noteq> newline then matchHere p xs else None)"
| "matchHere (AnyStar # p) s =
     (case s of
        [] \<Rightarrow> matchHere p []
      | x # xs \<Rightarrow>
          if x \<noteq> newline then
            (case matchHere (AnyStar # p) xs of Some r \<Rightarrow> Some r | None \<Rightarrow> matchHere p (x # xs))
          else matchHere p (x # xs))"
| "matchHere (GroupAnyLazyPlus # p) s =
     (case s of [] \<Rightarrow> None | x # xs \<Rightarrow> if x \<noteq> newline then lazyGroup p [x] xs else None)"
| "lazyGroup p cap s =
     (case matchHere p s of
        Some (caps, rest) \<Rightarrow> Some (rev cap # caps, rest)
      | None \<Rightarrow>
          (case s of [] \<Rightarrow> None | x # xs \<Rightarrow> if x \<noteq> newline then lazyGroup p (x # cap) xs else None))"
  by pat_completeness auto
termination
  by (relation "measure (\<lambda>a. case a of
        Inl (p, s) \<Rightarrow> 2 * (length p + length s)
      | Inr (p, cap, s) \<Rightarrow> 2 * (length p + length s) + 1)") auto

text \<open>\<open>(*Regexp).MatchString\<close>: some substring of the input matches.\<close>

fun MatchString :: "item list \<Rightarrow> string \<Rightarrow> bool" where
  "MatchString re [] = (matchHere re [] \<noteq> None)"
| "MatchString re (x # xs) = (matchHere re (x # xs) \<noteq> None \<or> MatchString re xs)"

text \<open>
  \<open>(*Regexp).FindAllStringSubmatch(s, -1)\<close>: the successive leftmost matches, each as
  the matched text followed by the captured groups; after a match the search goes on
  behind it.  (After an empty match, which none of the patterns with a literal character
  has, it goes on one character further.)
\<close>

function FindAllStringSubmatch :: "item list \<Rightarrow> string \<Rightarrow> string list list" where
  "FindAllStringSubmatch re s =
     (case matchHere re s of
        Some (caps, rest) \<Rightarrow>
          if length rest < length s then
            (take (length s - length rest) s # caps) # FindAllStringSubmatch re rest
          else
            ([] # caps) # (case s of [] \<Rightarrow> [] | x # xs \<Rightarrow> FindAllStringSubmatch re xs)
      | None \<Rightarrow> (case s of [] \<Rightarrow> [] | x # xs \<Rightarrow> FindAllStringSubmatch re xs))"
  by pat_completeness auto
termination
  by (relation "measure (\<lambda>(re, s). length s)") auto

declare FindAllStringSubmatch.simps [simp del]
declare lazyGroup.simps [simp del]

text \<open>The global \<open>matchers\<close> map after \<open>initializeMatchers\<close>.\<close>

definition hyperlinkPattern :: string where
  "hyperlinkPattern =
     ''Type='' @ [dquote] @
     ''http://schemas.openxmlformats.org/officeDocument/2006/relationships/hyperlink'' @
     [dquote] @ '' Target='' @ [dquote] @ ''(?P<url>.+?)'' @ [dquote]"

definition matchers :: "string \<rightharpoonup> item list" where
  "matchers =
     [''.docx'' \<mapsto> MustCompile ''word/_rels/document.xml.rels'',
      ''.pptx'' \<mapsto> MustCompile ''ppt/slides/_rels/.*.xml.rels'',
      ''hyperlink'' \<mapsto> MustCompile hyperlinkPattern,
      ''microsoft'' \<mapsto> MustCompile ''http://office.microsoft.com'',
      ''mailto'' \<mapsto> MustCompile ''mailto:.*'']"

section \<open>\<open>filterHyperlinks\<close>\<close>

text \<open>
  The loop of \<open>filterHyperlinks\<close>, with \<open>filteredLinks\<close> as accumulator.  A lookup of a
  key that \<open>initializeMatchers\<close> does not set would call \<open>MatchString\<close> on a nil
  \<open>*Regexp\<close>; the three keys used here are set.
\<close>

definition isMicrosoft :: "Hyperlink \<Rightarrow> bool" where
  "isMicrosoft link = MatchString (the (matchers ''microsoft'')) (Url link)"

definition isEmpty :: "Hyperlink \<Rightarrow> bool" where
  "isEmpty link = (Url link = [])"

definition isMail :: "Hyperlink \<Rightarrow> bool" where
  "isMail link = MatchString (the (matchers ''mailto'')) (Url link)"

fun filterLoop :: "Hyperlink list \<Rightarrow> Hyperlink list \<Rightarrow> Hyperlink list" where
  "filterLoop [] filteredLinks = filteredLinks"
| "filterLoop (link # hyperlinks) filteredLinks =
     (if isMicrosoft link = False \<and> isEmpty link = False \<and> isMail link = False
      then filterLoop hyperlinks (filteredLinks @ [link])
      else filterLoop hyperlinks filteredLinks)"

definition filterHyperlinks :: "Hyperlink list \<Rightarrow> Hyperlink list" where
  "filterHyperlinks hyperlinks = filterLoop hyperlinks []"

text \<open>The three cases in which the filter of the specification drops a URL, in its words.\<close>

definition vendorDomain :: string where
  "vendorDomain = ''http://office.microsoft.com''"

definition specDrops :: "string \<Rightarrow> bool" where
  "specDrops url = (url = [] \<or> sublist vendorDomain url \<or> prefix ''mailto:'' url)"

text \<open>
  What the two patterns of the filter match, character by character: a pattern character
  other than \<open>.\<close> stands for itself, \<open>.\<close> for any character but a line feed.
\<close>

definition charOk :: "char \<Rightarrow> char \<Rightarrow> bool" where
  "charOk a x = (if a = CHR ''.'' then x \<noteq> newline else x = a)"

definition itemOf :: "char \<Rightarrow> item" where
  "itemOf a = (if a = CHR ''.'' then AnyChar else Lit a)"

definition vendorMatch :: "string \<Rightarrow> bool" where
  "vendorMatch url =
     (\<exists>c d. c \<noteq> newline \<and> d \<noteq> newline \<and>
        sublist (''http://office'' @ [c] @ ''microsoft'' @ [d] @ ''com'') url)"

definition codeDrops :: "string \<Rightarrow> bool" where
  "codeDrops url = (url = [] \<or> vendorMatch url \<or> sublist ''mailto:'' url)"

definition mailInQuery :: Hyperlink where
  "mailInQuery = \<lparr>Url = ''http://example.com/?to=mailto:x'', IsWorking = False\<rparr>"

definition kept :: "Hyperlink \<Rightarrow> bool" where
  "kept link = (\<not> isMicrosoft link \<and> \<not> isEmpty link \<and> \<not> isMail link)"

section \<open>Effects: the log, the network, panics\<close>

text \<open>
  The state of a run is the list of lines written by \<open>log.Println\<close> and the state of
  the network, of any type \<open>'n\<close>.  Standard output (\<open>fmt.Println\<close>) is not modelled.
  A run-time panic that nothing recovers ends the process; a function that can panic
  returns \<open>Inl\<close> of the panic, with the state reached.
\<close>

datatype panic = NilPointerDereference | IndexOutOfRange | SliceBoundsOutOfRange

record 'n World =
  Log :: "string list"
  Net :: 'n

definition Println :: "string \<Rightarrow> 'n World \<Rightarrow> 'n World" where
  "Println line w = w\<lparr>Log := Log w @ [line]\<rparr>"

section \<open>\<open>Hyperlink.validate\<close>\<close>

text \<open>
  \<open>goreq.Request{...}.Do()\<close> is a parameter \<open>Do\<close>: from the state of the network and
  the request it gives the error returned (the response is discarded by \<open>validate\<close>)
  and the next state of the network.  \<open>Timeout\<close> is a \<open>time.Duration\<close>, in nanoseconds.
\<close>

record Request =
  Uri :: string
  Timeout :: int

definition Millisecond :: int where
  "Millisecond = 1000000"

type_synonym 'n transport = "'n \<Rightarrow> Request \<Rightarrow> error option \<times> 'n"

definition probeRequest :: "Hyperlink \<Rightarrow> Request" where
  "probeRequest link = \<lparr>Uri = Url link, Timeout = 15000 * Millisecond\<rparr>"

definition validate :: "'n transport \<Rightarrow> Hyperlink \<Rightarrow> 'n World \<Rightarrow> Hyperlink \<times> 'n World" where
  "validate Do link w =
     (case Do (Net w) (probeRequest link) of
        (err, n) \<Rightarrow>
          if err \<noteq> None then (link\<lparr>IsWorking := False\<rparr>, w\<lparr>Net := n\<rparr>)
          else (link\<lparr>IsWorking := True\<rparr>, w\<lparr>Net := n\<rparr>))"

text \<open>A transport that counts the requests it is given, on top of any transport.\<close>

definition counted :: "'n transport \<Rightarrow> (nat \<times> 'n) transport" where
  "counted Do = (\<lambda>(k, n) request. case Do n request of (err, n') \<Rightarrow> (err, (Suc k, n')))"

text \<open>A transport that records the requests it is given and always succeeds.\<close>

definition recording :: "Request list transport" where
  "recording = (\<lambda>requests request. (None, requests @ [request]))"

section \<open>Reading the relationship manifest\<close>

text \<open>
  \<open>zip.OpenReader\<close> is a parameter \<open>OpenReader\<close>: for a path, the error or the entries of
  the archive.  An entry has its name and the result of \<open>Open\<close>: the error, or the
  bytes that \<open>io.Copy\<close> then copies (the error of \<open>io.Copy\<close> itself is dropped by the
  code).
\<close>

record ZipFile =
  Name :: string
  Open :: "error + string"

type_synonym archives = "string \<Rightarrow> error + ZipFile list"

text \<open>
  The loop over \<open>documentContainer.File\<close>.  After a failed \<open>Open\<close> the reader is a nil
  interface, and \<open>defer fileContentReader.Close()\<close> panics on it.
\<close>

fun copyEntries :: "item list option \<Rightarrow> ZipFile list \<Rightarrow> string \<Rightarrow> 'n World \<Rightarrow> (panic + string) \<times> 'n World" where
  "copyEntries re [] buffer w = (Inr buffer, w)"
| "copyEntries re (file # files) buffer w =
     (case re of
        None \<Rightarrow> (Inl NilPointerDereference, w)
      | Some r \<Rightarrow>
          if MatchString r (Name file) then
            (case Open file of
               Inl err \<Rightarrow> (Inl NilPointerDereference, Println ''ERROR: coult not read file content'' w)
             | Inr content \<Rightarrow> copyEntries re files (buffer @ content) w)
          else copyEntries re files buffer w)"

text \<open>
  After a failed \<open>zip.OpenReader\<close> the code logs and goes on with a nil
  \<open>*zip.ReadCloser\<close>; reading its field \<open>File\<close> panics.
\<close>

definition getLinkFileContent :: "archives \<Rightarrow> Document \<Rightarrow> 'n World \<Rightarrow> (panic + string) \<times> 'n World" where
  "getLinkFileContent OpenReader document w =
     (case OpenReader (Path document) of
        Inl err \<Rightarrow> (Inl NilPointerDereference, Println ''ERROR: could not open the file'' w)
      | Inr files \<Rightarrow> copyEntries (matchers (Type document)) files [] w)"

text \<open>The loop \<open>links[index] = Hyperlink{Url: match[1], IsWorking: false}\<close>.\<close>

fun linksOfMatches :: "string list list \<Rightarrow> panic + Hyperlink list" where
  "linksOfMatches [] = Inr []"
| "linksOfMatches (match # matches) =
     (if 1 < length match then
        (case linksOfMatches matches of
           Inl p \<Rightarrow> Inl p
         | Inr links \<Rightarrow> Inr (\<lparr>Url = match ! 1, IsWorking = False\<rparr> # links))
      else Inl IndexOutOfRange)"

definition extractHyperlinksFromContent :: "string \<Rightarrow> panic + Hyperlink list" where
  "extractHyperlinksFromContent fileContent =
     (case linksOfMatches (FindAllStringSubmatch (the (matchers ''hyperlink'')) fileContent) of
        Inl p \<Rightarrow> Inl p
      | Inr links \<Rightarrow> Inr (filterHyperlinks links))"

definition extractHyperlinksFromDocument :: "archives \<Rightarrow> Document \<Rightarrow> 'n World \<Rightarrow> (panic + Hyperlink list) \<times> 'n World" where
  "extractHyperlinksFromDocument OpenReader document w =
     (case getLinkFileContent OpenReader document w of
        (Inl p, w') \<Rightarrow> (Inl p, w')
      | (Inr content, w') \<Rightarrow> (extractHyperlinksFromContent content, w'))"

text \<open>
  What \<open>getLinkFileContent\<close> is to return for an archive that opens: the contents of
  the entries whose names match, one after the other in the order of the archive.
\<close>

definition manifestContent :: "item list \<Rightarrow> ZipFile list \<Rightarrow> string" where
  "manifestContent re files =
     concat (map (\<lambda>file. case Open file of Inr content \<Rightarrow> content | Inl err \<Rightarrow> [])
       (filter (\<lambda>file. MatchString re (Name file)) files))"

text \<open>
  A manifest as the specification describes it: hyperlink records, each the attribute
  pair \<open>Type="<hyperlink schema URI>" Target="<url>"\<close>, with other text before each
  record and after the last one.
\<close>

definition hyperlinkSchema :: string where
  "hyperlinkSchema = ''http://schemas.openxmlformats.org/officeDocument/2006/relationships/hyperlink''"

definition recordPrefix :: string where
  "recordPrefix = ''Type='' @ [dquote] @ hyperlinkSchema @ [dquote] @ '' Target='' @ [dquote]"

definition hyperlinkRecord :: "string \<Rightarrow> string" where
  "hyperlinkRecord url = recordPrefix @ url @ [dquote]"

fun manifest :: "(string \<times> string) list \<Rightarrow> string \<Rightarrow> string" where
  "manifest [] rest = rest"
| "manifest ((filler, url) # records) rest = filler @ hyperlinkRecord url @ manifest records rest"

definition wellFormedTarget :: "string \<Rightarrow> bool" where
  "wellFormedTarget url = (url \<noteq> [] \<and> dquote \<notin> set url \<and> newline \<notin> set url)"

text \<open>
  Text in which no hyperlink record begins: at no position does it agree with the start
  of a record as far as it goes.
\<close>

fun agrees :: "string \<Rightarrow> string \<Rightarrow> bool" where
  "agrees [] t = True"
| "agrees (a # p) [] = True"
| "agrees (a # p) (x # t) = (charOk a x \<and> agrees p t)"

fun noRecordStart :: "string \<Rightarrow> bool" where
  "noRecordStart [] = True"
| "noRecordStart (x # t) = (\<not> agrees recordPrefix (x # t) \<and> noRecordStart t)"

text \<open>The compiled hyperlink pattern: the start of a record, the group, the closing quote.\<close>

definition hyperlinkItems :: "item list" where
  "hyperlinkItems = map itemOf recordPrefix @ [GroupAnyLazyPlus, Lit dquote]"

section \<open>Walking the directory\<close>

text \<open>
  \<open>filepath.Ext\<close>: the suffix from the last dot of the last path element (separator
  \<open>/\<close>), empty when there is none.
\<close>

fun extScan :: "string \<Rightarrow> string \<Rightarrow> string" where
  "extScan [] acc = []"
| "extScan (c # front) acc =
     (if c = CHR ''/'' then []
      else if c = CHR ''.'' then c # acc
      else extScan front (c # acc))"

definition Ext :: "string \<Rightarrow> string" where
  "Ext path = extScan (rev path) []"

text \<open>
  One call of the callback by \<open>filepath.Walk\<close>: the path, the \<open>Name()\<close> of the file
  info (\<open>None\<close> when the info is nil, as it is when \<open>Lstat\<close> of the entry failed), and
  the error passed.
\<close>

record WalkVisit =
  visitPath :: string
  visitInfo :: "string option"
  visitErr :: "error option"

text \<open>
  The callback given to \<open>filepath.Walk\<close>; \<open>fileChannel\<close> holds the documents sent so
  far.  It returns the error it gives back to \<open>Walk\<close>.
\<close>

definition walkFn :: "WalkVisit \<Rightarrow> Document list \<Rightarrow> 'n World \<Rightarrow> (panic + error option) \<times> Document list \<times> 'n World" where
  "walkFn visit fileChannel w =
     (case visitInfo visit of
        None \<Rightarrow> (Inl NilPointerDereference, fileChannel, w)
      | Some fileName \<Rightarrow>
          (let extension = Ext fileName in
           if extension = ''.docx'' \<or> extension = ''.pptx'' then
             (Inr None,
              fileChannel @ [\<lparr>Path = visitPath visit, Type = Ext fileName, IsValid = False, Hyperlinks = []\<rparr>],
              w)
           else (Inr None, fileChannel, w)))"

text \<open>
  \<open>filepath.Walk\<close> over the entries it would visit when the callback keeps returning
  nil: an error returned by the callback ends the walk.
\<close>

fun Walk :: "WalkVisit list \<Rightarrow> (WalkVisit \<Rightarrow> Document list \<Rightarrow> 'n World \<Rightarrow> (panic + error option) \<times> Document list \<times> 'n World)
    \<Rightarrow> Document list \<Rightarrow> 'n World \<Rightarrow> (panic + error option) \<times> Document list \<times> 'n World" where
  "Walk [] fn fileChannel w = (Inr None, fileChannel, w)"
| "Walk (visit # visits) fn fileChannel w =
     (case fn visit fileChannel w of
        (Inl p, ch, w') \<Rightarrow> (Inl p, ch, w')
      | (Inr (Some err), ch, w') \<Rightarrow> (Inr (Some err), ch, w')
      | (Inr None, ch, w') \<Rightarrow> Walk visits fn ch w')"

definition walkDirectory :: "WalkVisit list \<Rightarrow> 'n World \<Rightarrow> (panic + Document list) \<times> 'n World" where
  "walkDirectory visits w =
     (case Walk visits walkFn [] w of
        (Inl p, ch, w') \<Rightarrow> (Inl p, w')
      | (Inr err, ch, w') \<Rightarrow> (Inr ch, w'))"

text \<open>The document that the callback sends for an entry with a document's extension.\<close>

definition isDocumentName :: "string \<Rightarrow> bool" where
  "isDocumentName fileName = (Ext fileName = ''.docx'' \<or> Ext fileName = ''.pptx'')"

definition documentOf :: "WalkVisit \<Rightarrow> Document" where
  "documentOf visit =
     \<lparr>Path = visitPath visit, Type = Ext (the (visitInfo visit)), IsValid = False, Hyperlinks = []\<rparr>"

section \<open>Checking the documents\<close>

text \<open>
  The goroutines started by \<open>extractAndCheckHyperlinks\<close> each write one element of
  \<open>file.Hyperlinks\<close>, and \<open>checkingHyperlinks.Wait()\<close> returns after all of them; the
  model runs them one after the other, in the order of the links.
\<close>

fun validateAll :: "'n transport \<Rightarrow> Hyperlink list \<Rightarrow> 'n World \<Rightarrow> Hyperlink list \<times> 'n World" where
  "validateAll Do [] w = ([], w)"
| "validateAll Do (link # links) w =
     (case validate Do link w of
        (link', w') \<Rightarrow> (case validateAll Do links w' of (links', w'') \<Rightarrow> (link' # links', w'')))"

definition extractAndCheckHyperlinks :: "archives \<Rightarrow> 'n transport \<Rightarrow> Document \<Rightarrow> 'n World \<Rightarrow> (panic + Document) \<times> 'n World" where
  "extractAndCheckHyperlinks OpenReader Do file w =
     (case extractHyperlinksFromDocument OpenReader file w of
        (Inl p, w') \<Rightarrow> (Inl p, w')
      | (Inr links, w') \<Rightarrow>
          (case validateAll Do links w' of
             (links', w'') \<Rightarrow> (Inr (file\<lparr>Hyperlinks := links'\<rparr>), w'')))"

text \<open>The loop \<open>for file := range fileChannel\<close> of \<open>getAndCheckFilesInDirectory\<close>.\<close>

fun checkFiles :: "archives \<Rightarrow> 'n transport \<Rightarrow> Document list \<Rightarrow> Document list \<Rightarrow> 'n World \<Rightarrow> (panic + Document list) \<times> 'n World" where
  "checkFiles OpenReader Do [] documents w = (Inr documents, w)"
| "checkFiles OpenReader Do (file # files) documents w =
     (case extractAndCheckHyperlinks OpenReader Do file w of
        (Inl p, w') \<Rightarrow> (Inl p, w')
      | (Inr file', w') \<Rightarrow> checkFiles OpenReader Do files (documents @ [file']) w')"

text \<open>
  The walk runs in its own goroutine and hands each document over an unbuffered
  channel; the model lets the walk finish first.  A run that ends without a panic is
  the same either way.
\<close>

definition getAndCheckFilesInDirectory :: "WalkVisit list \<Rightarrow> archives \<Rightarrow> 'n transport \<Rightarrow> 'n World \<Rightarrow> (panic + Document list) \<times> 'n World" where
  "getAndCheckFilesInDirectory visits OpenReader Do w =
     (case walkDirectory visits w of
        (Inl p, w') \<Rightarrow> (Inl p, w')
      | (Inr files, w') \<Rightarrow> checkFiles OpenReader Do files [] w')"

section \<open>\<open>main\<close>: the report\<close>

text \<open>
  The inner loop of \<open>main\<close> over the links of one document; the state is the pair of
  \<open>documents[index].IsValid\<close> and \<open>resultOfValidation\<close>.
\<close>

fun checkLinks :: "Hyperlink list \<Rightarrow> bool \<times> bool \<Rightarrow> bool \<times> bool" where
  "checkLinks [] state = state"
| "checkLinks (link # links) (isValid, resultOfValidation) =
     (if IsWorking link = False then checkLinks links (False, False)
      else checkLinks links (isValid, resultOfValidation))"

fun checkDocuments :: "Document list \<Rightarrow> bool \<Rightarrow> Document list \<times> bool" where
  "checkDocuments [] resultOfValidation = ([], resultOfValidation)"
| "checkDocuments (document # documents) resultOfValidation =
     (case checkLinks (Hyperlinks document) (True, resultOfValidation) of
        (isValid, result) \<Rightarrow>
          (case checkDocuments documents result of
             (documents', result') \<Rightarrow> (document\<lparr>IsValid := isValid\<rparr> # documents', result')))"

text \<open>
  \<open>main\<close> up to the \<open>Report\<close> value it hands to the renderer.  \<open>now\<close> is
  \<open>time.Now().String()\<close>, of which \<open>currentTime[:19]\<close> takes the first 19 characters.
  The composite literal does not set \<open>InvalidHyperlinks\<close>, which keeps its zero value.
\<close>

definition main :: "WalkVisit list \<Rightarrow> archives \<Rightarrow> 'n transport \<Rightarrow> string \<Rightarrow> 'n World \<Rightarrow> (panic + Report) \<times> 'n World" where
  "main visits OpenReader Do now w =
     (let directories = [''.''] in
      if length now < 19 then (Inl SliceBoundsOutOfRange, w)
      else
        (let currentTime = take 19 now in
         case getAndCheckFilesInDirectory visits OpenReader Do w of
           (Inl p, w') \<Rightarrow> (Inl p, w')
         | (Inr documents, w') \<Rightarrow>
             (case checkDocuments documents True of
                (documents', resultOfValidation) \<Rightarrow>
                  (Inr \<lparr>ResultOfValidation = (if resultOfValidation \<noteq> False then True else resultOfValidation),
                        Directories = directories,
                        Documents = documents',
                        InvalidHyperlinks = [],
                        Date = currentTime\<rparr>, w'))))"

section \<open>Example runs\<close>

text \<open>
  A directory with \<open>a.docx\<close>, whose manifest has a relationship to its styles and
  three hyperlink records, one of them a \<open>mailto:\<close> address, and \<open>empty.pptx\<close>, which
  has no slide manifest; one of the two hosts does not answer.
\<close>

definition exampleWorld :: "unit World" where
  "exampleWorld = \<lparr>Log = [], Net = ()\<rparr>"

definition exampleNow :: string where
  "exampleNow = ''2014-06-01 10:00:00.000000000 +0200 CEST''"

definition exampleTransport :: "unit transport" where
  "exampleTransport =
     (\<lambda>n request.
        (if Uri request = ''http://dead.example/'' then Some ''dial tcp: no such host'' else None, n))"

definition stylesRelationship :: string where
  "stylesRelationship =
     ''<Relationship Id='' @ [dquote] @ ''rId1'' @ [dquote] @ '' Type='' @ [dquote] @
     ''http://schemas.openxmlformats.org/officeDocument/2006/relationships/styles'' @ [dquote] @
     '' Target='' @ [dquote] @ ''styles.xml'' @ [dquote] @ ''/>''"

definition nextRelationship :: "string \<Rightarrow> string" where
  "nextRelationship ident =
     '' TargetMode='' @ [dquote] @ ''External'' @ [dquote] @ ''/><Relationship Id='' @
     [dquote] @ ident @ [dquote] @ '' ''"

definition exampleRecords :: "(string \<times> string) list" where
  "exampleRecords =
     [(stylesRelationship @ ''<Relationship Id='' @ [dquote] @ ''rId2'' @ [dquote] @ '' '',
       ''http://ok.example/''),
      (nextRelationship ''rId3'', ''mailto:someone@example.com''),
      (nextRelationship ''rId4'', ''http://dead.example/'')]"

definition exampleRest :: string where
  "exampleRest = '' TargetMode='' @ [dquote] @ ''External'' @ [dquote] @ ''/></Relationships>''"

definition exampleManifest :: string where
  "exampleManifest = manifest exampleRecords exampleRest"

definition exampleDocument :: Document where
  "exampleDocument = \<lparr>Path = ''./a.docx'', Type = ''.docx'', IsValid = False, Hyperlinks = []\<rparr>"

definition emptyPresentation :: Document where
  "emptyPresentation = \<lparr>Path = ''./empty.pptx'', Type = ''.pptx'', IsValid = False, Hyperlinks = []\<rparr>"

definition exampleArchives :: archives where
  "exampleArchives =
     (\<lambda>path.
        if path = ''./a.docx'' then
          Inr [\<lparr>Name = ''word/_rels/document.xml.rels'', Open = Inr exampleManifest\<rparr>]
        else if path = ''./empty.pptx'' then
          Inr [\<lparr>Name = ''ppt/presentation.xml'', Open = Inr ''<p/>''\<rparr>]
        else Inl ''zip: not a valid zip file'')"

definition exampleVisits :: "WalkVisit list" where
  "exampleVisits =
     [\<lparr>visitPath = ''.'', visitInfo = Some ''.'', visitErr = None\<rparr>,
      \<lparr>visitPath = ''./a.docx'', visitInfo = Some ''a.docx'', visitErr = None\<rparr>,
      \<lparr>visitPath = ''./empty.pptx'', visitInfo = Some ''empty.pptx'', visitErr = None\<rparr>]"

text \<open>
  A walk in which the callback is called with an error for \<open>locked.docx\<close>, a
  directory that cannot be read, and goes on to \<open>b.pptx\<close>.
\<close>

definition errorVisits :: "WalkVisit list" where
  "errorVisits =
     [\<lparr>visitPath = ''.'', visitInfo = Some ''.'', visitErr = None\<rparr>,
      \<lparr>visitPath = ''./locked.docx'', visitInfo = Some ''locked.docx'',
       visitErr = Some ''open locked.docx: permission denied''\<rparr>,
      \<lparr>visitPath = ''./b.pptx'', visitInfo = Some ''b.pptx'', visitErr = None\<rparr>]"

text \<open>
  A directory with \<open>broken.docx\<close>, which is not a zip archive, before \<open>a.docx\<close>; and
  archives whose manifest entry cannot be opened.
\<close>

definition corruptVisits :: "WalkVisit list" where
  "corruptVisits =
     [\<lparr>visitPath = ''.'', visitInfo = Some ''.'', visitErr = None\<rparr>,
      \<lparr>visitPath = ''./broken.docx'', visitInfo = Some ''broken.docx'', visitErr = None\<rparr>,
      \<lparr>visitPath = ''./a.docx'', visitInfo = Some ''a.docx'', visitErr = None\<rparr>]"

definition unreadableEntryArchives :: archives where
  "unreadableEntryArchives =
     (\<lambda>path. Inr [\<lparr>Name = ''word/_rels/document.xml.rels'', Open = Inl ''zip: unsupported compression algorithm''\<rparr>])"

definition exampleReport :: Report where
  "exampleReport =
     \<lparr>ResultOfValidation = False, Directories = [''.''],
      Documents =
        [\<lparr>Path = ''./a.docx'', Type = ''.docx'', IsValid = False,
          Hyperlinks = [\<lparr>Url = ''http://ok.example/'', IsWorking = True\<rparr>,
                        \<lparr>Url = ''http://dead.example/'', IsWorking = False\<rparr>]\<rparr>,
         \<lparr>Path = ''./empty.pptx'', Type = ''.pptx'', IsValid = True, Hyperlinks = []\<rparr>],
      InvalidHyperlinks = [], Date = ''2014-06-01 10:00:00''\<rparr>"

section \<open>Properties of the link filter\<close>

lemma filterLoop_filter: "filterLoop hyperlinks acc = acc @ filter kept hyperlinks"
  by (induction hyperlinks arbitrary: acc) (simp_all add: kept_def)

lemma filterHyperlinks_filter: "filterHyperlinks hyperlinks = filter kept hyperlinks"
  by (simp add: filterHyperlinks_def filterLoop_filter)

lemma matchHere_plain:
  "matchHere (map itemOf ps @ q) t =
     (if length ps \<le> length t \<and> list_all2 charOk ps (take (length ps) t)
      then matchHere q (drop (length ps) t) else None)"
proof (induction ps arbitrary: t)
  case Nil
  then show ?case by simp
next
  case (Cons a ps)
  show ?case
  proof (cases t)
    case Nil
    then show ?thesis by (simp add: itemOf_def)
  next
    case (Cons x xs)
    then show ?thesis
      using Cons.IH [of xs] by (simp add: itemOf_def charOk_def)
  qed
qed

lemma MatchString_iff:
  "MatchString re s \<longleftrightarrow> (\<exists>a b. s = a @ b \<and> matchHere re b \<noteq> None)"
proof (induction s)
  case Nil
  then show ?case by simp
next
  case (Cons x xs)
  have "(\<exists>a b. x # xs = a @ b \<and> matchHere re b \<noteq> None) \<longleftrightarrow>
        matchHere re (x # xs) \<noteq> None \<or> (\<exists>a b. xs = a @ b \<and> matchHere re b \<noteq> None)"
    by (auto simp: Cons_eq_append_conv)
  with Cons.IH show ?case by simp
qed

lemma matchHere_AnyStar: "matchHere [AnyStar] t \<noteq> None"
  by (induction t) (auto split: option.splits)

text \<open>
  A pattern of literal characters and dots, alone or followed by \<open>.*\<close>, matches the
  strings that contain an instance of it.
\<close>

lemma MatchString_plain_gen:
  assumes "\<And>t. matchHere q t \<noteq> None"
  shows "MatchString (map itemOf ps @ q) s \<longleftrightarrow> (\<exists>m. list_all2 charOk ps m \<and> sublist m s)"
proof
  assume "MatchString (map itemOf ps @ q) s"
  then obtain a b where s: "s = a @ b" and m: "matchHere (map itemOf ps @ q) b \<noteq> None"
    by (auto simp: MatchString_iff)
  from m have len: "length ps \<le> length b" and ok: "list_all2 charOk ps (take (length ps) b)"
    unfolding matchHere_plain by (auto split: if_splits)
  have "s = a @ take (length ps) b @ drop (length ps) b"
    using s by simp
  then have "sublist (take (length ps) b) s"
    unfolding sublist_def by blast
  with ok show "\<exists>m. list_all2 charOk ps m \<and> sublist m s" by blast
next
  assume "\<exists>m. list_all2 charOk ps m \<and> sublist m s"
  then obtain m a c where ok: "list_all2 charOk ps m" and s: "s = a @ m @ c"
    by (auto simp: sublist_def)
  from ok have len: "length m = length ps" by (simp add: list_all2_lengthD)
  have "matchHere (map itemOf ps @ q) (m @ c) \<noteq> None"
    unfolding matchHere_plain using ok len assms by simp
  with s show "MatchString (map itemOf ps @ q) s"
    unfolding MatchString_iff by auto
qed

lemma MatchString_plain:
  "MatchString (map itemOf ps) s \<longleftrightarrow> (\<exists>m. list_all2 charOk ps m \<and> sublist m s)"
  using MatchString_plain_gen [of "[]" ps s] by simp

lemma MatchString_plain_star:
  "MatchString (map itemOf ps @ [AnyStar]) s \<longleftrightarrow> (\<exists>m. list_all2 charOk ps m \<and> sublist m s)"
  using MatchString_plain_gen [of "[AnyStar]" ps s] matchHere_AnyStar by simp

lemma microsoft_items:
  "the (matchers ''microsoft'') = map itemOf ''http://office.microsoft.com''"
  by (simp add: matchers_def itemOf_def)

lemma mailto_items:
  "the (matchers ''mailto'') = map itemOf ''mailto:'' @ [AnyStar]"
  by (simp add: matchers_def itemOf_def)

lemma charOk_mailto: "list_all2 charOk ''mailto:'' m \<longleftrightarrow> m = ''mailto:''"
  by (auto simp: list_all2_Cons1 charOk_def)

lemma charOk_microsoft:
  "list_all2 charOk ''http://office.microsoft.com'' m \<longleftrightarrow>
     (\<exists>c d. c \<noteq> newline \<and> d \<noteq> newline \<and> m = ''http://office'' @ [c] @ ''microsoft'' @ [d] @ ''com'')"
  by (auto simp: list_all2_Cons1 charOk_def)

lemma isMail_iff: "isMail link \<longleftrightarrow> sublist ''mailto:'' (Url link)"
  unfolding isMail_def mailto_items MatchString_plain_star charOk_mailto
  by simp

lemma isMicrosoft_iff: "isMicrosoft link \<longleftrightarrow> vendorMatch (Url link)"
  unfolding isMicrosoft_def microsoft_items MatchString_plain charOk_microsoft vendorMatch_def
  by blast

lemma kept_iff: "kept link \<longleftrightarrow> \<not> codeDrops (Url link)"
  by (auto simp: kept_def codeDrops_def isMail_iff isMicrosoft_iff isEmpty_def)

text \<open>
  Claim C6, as the code has it.  The filter drops exactly the links whose URL is empty, or
  contains an instance of the pattern \<open>http://office.microsoft.com\<close> (each dot standing
  for any character but a line feed), or contains \<open>mailto:\<close> anywhere.  The others stay in
  their order, each as often as it occurs in the input.
\<close>

theorem filterHyperlinks_drops_exactly:
  "filterHyperlinks hyperlinks = filter (\<lambda>link. \<not> codeDrops (Url link)) hyperlinks
   \<and> count_list (filterHyperlinks hyperlinks) link =
       (if codeDrops (Url link) then 0 else count_list hyperlinks link)"
proof -
  have eq: "filterHyperlinks hyperlinks = filter (\<lambda>link. \<not> codeDrops (Url link)) hyperlinks"
    by (simp add: filterHyperlinks_filter kept_iff [abs_def])
  have "count_list (filter (\<lambda>link. \<not> codeDrops (Url link)) xs) link =
       (if codeDrops (Url link) then 0 else count_list xs link)" for xs
    by (induction xs) auto
  with eq show ?thesis by simp
qed

text \<open>
  Claim C6 as stated fails: a URL that is not empty, does not contain the vendor domain
  and does not have the \<open>mailto:\<close> scheme is dropped all the same, because \<open>mailto:\<close>
  occurs in its query string.
\<close>

theorem filterHyperlinks_counterexample:
  "\<not> specDrops (Url mailInQuery) \<and> filterHyperlinks [mailInQuery] = []"
  by code_simp

text \<open>
  Claim C8.  The link filter is idempotent: filtering an already filtered sequence of
  links changes nothing.
\<close>

theorem filterHyperlinks_idempotent:
  "filterHyperlinks (filterHyperlinks x) = filterHyperlinks x"
  by (simp add: filterHyperlinks_filter)

section \<open>Properties of the prober\<close>

text \<open>
  Claim C5.  One call of \<open>validate\<close> gives the transport exactly one request, for the
  URL of the link, and marks the link broken if and only if that single fetch returned an
  error, working otherwise; nothing else of the state changes.
\<close>

theorem validate_single_fetch:
  "validate (counted Do) link \<lparr>Log = lg, Net = (k, n)\<rparr> =
     (link\<lparr>IsWorking := (fst (Do n (probeRequest link)) = None)\<rparr>,
      \<lparr>Log = lg, Net = (Suc k, snd (Do n (probeRequest link)))\<rparr>)
   \<and> Uri (probeRequest link) = Url link"
  by (simp add: validate_def counted_def probeRequest_def split: prod.splits)

text \<open>
  Claim C7, as the code has it.  The timeout of the request that \<open>validate\<close> issues is the
  constant 15000 milliseconds, for every link: \<open>validate\<close> takes no timeout from its
  caller.
\<close>

theorem validate_timeout_fixed:
  "validate recording link \<lparr>Log = lg, Net = requests\<rparr> =
     (link\<lparr>IsWorking := True\<rparr>,
      \<lparr>Log = lg, Net = requests @ [\<lparr>Uri = Url link, Timeout = 15000 * Millisecond\<rparr>]\<rparr>)"
  by (simp add: validate_def recording_def probeRequest_def)

text \<open>Claim C7 as stated fails: the timeout of the request is not 5 seconds.\<close>

theorem validate_timeout_counterexample:
  "snd (validate recording \<lparr>Url = ''http://example.com/'', IsWorking = False\<rparr> \<lparr>Log = [], Net = []\<rparr>) =
     \<lparr>Log = [], Net = [\<lparr>Uri = ''http://example.com/'', Timeout = 15000 * Millisecond\<rparr>]\<rparr>
   \<and> 15000 * Millisecond \<noteq> 5000 * Millisecond"
  by (simp add: validate_def recording_def probeRequest_def Millisecond_def)

section \<open>Properties of the walk\<close>

lemma walkFn_info:
  "visitInfo visit = Some fileName \<Longrightarrow>
   walkFn visit fileChannel w =
     (Inr None,
      fileChannel @ (if isDocumentName fileName then [documentOf visit] else []),
      w)"
  by (simp add: walkFn_def isDocumentName_def documentOf_def Let_def)

lemma Walk_walkFn:
  "\<forall>visit\<in>set visits. visitInfo visit \<noteq> None \<Longrightarrow>
   Walk visits walkFn fileChannel w =
     (Inr None,
      fileChannel @ map documentOf (filter (\<lambda>visit. isDocumentName (the (visitInfo visit))) visits),
      w)"
proof (induction visits arbitrary: fileChannel)
  case Nil
  then show ?case by simp
next
  case (Cons visit visits)
  then obtain fileName where info: "visitInfo visit = Some fileName"
    by auto
  from Cons show ?case
    by (simp add: walkFn_info [OF info] info)
qed

text \<open>
  Claim C4, as the code has it.  The callback does not look at the error it is given: in a
  walk whose calls all carry a file info, nothing is logged, every entry with the
  extension of a document is sent as a document, whether its call carried an error or not,
  and the walk goes on to the end of the entries.
\<close>

theorem walk_ignores_errors:
  assumes "\<forall>visit\<in>set visits. visitInfo visit \<noteq> None"
  shows "walkDirectory visits w =
     (Inr (map documentOf (filter (\<lambda>visit. isDocumentName (the (visitInfo visit))) visits)), w)"
  using Walk_walkFn [OF assms, of "[]" w] by (simp add: walkDirectory_def)

theorem walk_ignores_errors_witness:
  "visitErr (errorVisits ! 1) = Some ''open locked.docx: permission denied''
   \<and> walkDirectory errorVisits exampleWorld =
       (Inr [\<lparr>Path = ''./locked.docx'', Type = ''.docx'', IsValid = False, Hyperlinks = []\<rparr>,
             \<lparr>Path = ''./b.pptx'', Type = ''.pptx'', IsValid = False, Hyperlinks = []\<rparr>], exampleWorld)"
proof -
  have h: "\<forall>visit\<in>set errorVisits. visitInfo visit \<noteq> None"
    by (simp add: errorVisits_def)
  have e: "map documentOf (filter (\<lambda>visit. isDocumentName (the (visitInfo visit))) errorVisits) =
      [\<lparr>Path = ''./locked.docx'', Type = ''.docx'', IsValid = False, Hyperlinks = []\<rparr>,
       \<lparr>Path = ''./b.pptx'', Type = ''.pptx'', IsValid = False, Hyperlinks = []\<rparr>]"
    by code_simp
  show ?thesis
    using walk_ignores_errors [OF h, of exampleWorld] e
    by (simp add: errorVisits_def)
qed

text \<open>
  Claim C4 as stated fails: the entry whose call carries an error is neither logged nor
  skipped.  It is sent as a document, and the log stays empty.
\<close>

theorem walk_error_counterexample:
  "visitErr (errorVisits ! 1) = Some ''open locked.docx: permission denied''
   \<and> visitPath (errorVisits ! 1) = ''./locked.docx''
   \<and> walkDirectory errorVisits \<lparr>Log = [], Net = ()\<rparr> =
       (Inr [\<lparr>Path = ''./locked.docx'', Type = ''.docx'', IsValid = False, Hyperlinks = []\<rparr>,
             \<lparr>Path = ''./b.pptx'', Type = ''.pptx'', IsValid = False, Hyperlinks = []\<rparr>],
        \<lparr>Log = [], Net = ()\<rparr>)"
  by code_simp

section \<open>Properties of the extractor\<close>

lemma hyperlink_items: "the (matchers ''hyperlink'') = hyperlinkItems"
  by (simp add: matchers_def hyperlinkPattern_def hyperlinkItems_def recordPrefix_def
      hyperlinkSchema_def itemOf_def dquote_def)

lemma charOk_refl: "list_all2 charOk ps ps"
  by (induction ps) (simp_all add: charOk_def newline_def)

lemma agrees_take: "list_all2 charOk ps (take (length ps) t) \<Longrightarrow> agrees ps t"
proof (induction ps arbitrary: t)
  case Nil
  then show ?case by simp
next
  case (Cons a ps)
  then show ?case by (cases t) simp_all
qed

lemma agrees_append: "agrees ps (t @ s) \<Longrightarrow> agrees ps t"
proof (induction ps arbitrary: t)
  case Nil
  then show ?case by simp
next
  case (Cons a ps)
  then show ?case by (cases t) simp_all
qed

lemma no_match_disagree:
  assumes "\<not> agrees ps t"
  shows "matchHere (map itemOf ps @ q) (t @ s) = None"
proof -
  from assms have "\<not> agrees ps (t @ s)"
    using agrees_append by blast
  then have "\<not> list_all2 charOk ps (take (length ps) (t @ s))"
    using agrees_take by blast
  then show ?thesis
    by (simp add: matchHere_plain)
qed

lemma FindAll_Nil_input: "FindAllStringSubmatch hyperlinkItems [] = []"
proof -
  have "matchHere hyperlinkItems [] = None"
    unfolding hyperlinkItems_def matchHere_plain by (simp add: recordPrefix_def)
  then show ?thesis
    by (subst FindAllStringSubmatch.simps) simp
qed

text \<open>The search passes over text in which no record begins.\<close>

lemma FindAll_skip:
  "noRecordStart filler \<Longrightarrow>
   FindAllStringSubmatch hyperlinkItems (filler @ s) = FindAllStringSubmatch hyperlinkItems s"
proof (induction filler)
  case Nil
  then show ?case by simp
next
  case (Cons x t)
  then have "matchHere hyperlinkItems ((x # t) @ s) = None"
    unfolding hyperlinkItems_def by (intro no_match_disagree) simp
  then have "FindAllStringSubmatch hyperlinkItems ((x # t) @ s) =
      FindAllStringSubmatch hyperlinkItems (t @ s)"
    by (subst FindAllStringSubmatch.simps) simp
  with Cons show ?case by simp
qed

text \<open>The lazy group stops at the first double quote behind its first character.\<close>

lemma lazy_capture:
  "dquote \<notin> set u \<Longrightarrow> newline \<notin> set u \<Longrightarrow>
   lazyGroup [Lit dquote] cap (u @ dquote # s) = Some ([rev cap @ u], s)"
proof (induction u arbitrary: cap)
  case Nil
  show ?case
    by (subst lazyGroup.simps) simp
next
  case (Cons x xs)
  then have "lazyGroup [Lit dquote] (x # cap) (xs @ dquote # s) = Some ([rev (x # cap) @ xs], s)"
    by simp
  moreover from Cons.prems have "x \<noteq> dquote" "x \<noteq> newline"
    by auto
  ultimately show ?case
    by (subst lazyGroup.simps) simp
qed

lemma match_record:
  assumes "wellFormedTarget url"
  shows "matchHere hyperlinkItems (hyperlinkRecord url @ s) = Some ([url], s)"
proof -
  from assms obtain x xs where u: "url = x # xs" and x: "x \<noteq> newline"
    and xs: "dquote \<notin> set xs" "newline \<notin> set xs"
    by (cases url) (auto simp: wellFormedTarget_def)
  have "matchHere hyperlinkItems (hyperlinkRecord url @ s) =
      matchHere [GroupAnyLazyPlus, Lit dquote] (url @ dquote # s)"
    unfolding hyperlinkItems_def hyperlinkRecord_def matchHere_plain
    by (simp add: charOk_refl)
  also have "\<dots> = Some ([url], s)"
    using x lazy_capture [OF xs, of "[x]" s] by (simp add: u)
  finally show ?thesis .
qed

lemma FindAll_record:
  assumes "wellFormedTarget url"
  shows "FindAllStringSubmatch hyperlinkItems (hyperlinkRecord url @ s) =
     [hyperlinkRecord url, url] # FindAllStringSubmatch hyperlinkItems s"
proof -
  have "0 < length (hyperlinkRecord url)"
    by (simp add: hyperlinkRecord_def)
  then show ?thesis
    by (subst FindAllStringSubmatch.simps) (simp add: match_record [OF assms])
qed

lemma FindAll_manifest:
  assumes "\<forall>(filler, url)\<in>set records. noRecordStart filler \<and> wellFormedTarget url"
    and "noRecordStart rest"
  shows "FindAllStringSubmatch hyperlinkItems (manifest records rest) =
     map (\<lambda>(filler, url). [hyperlinkRecord url, url]) records"
  using assms(1)
proof (induction records)
  case Nil
  show ?case
    using FindAll_skip [OF assms(2), of "[]"] by (simp add: FindAll_Nil_input)
next
  case (Cons r records)
  obtain filler url where r: "r = (filler, url)" by (cases r)
  with Cons.prems have f: "noRecordStart filler" and u: "wellFormedTarget url"
    by auto
  from Cons have IH: "FindAllStringSubmatch hyperlinkItems (manifest records rest) =
     map (\<lambda>(filler, url). [hyperlinkRecord url, url]) records"
    by simp
  show ?case
    by (simp add: r FindAll_skip [OF f] FindAll_record [OF u] IH)
qed

lemma linksOfMatches_records:
  "linksOfMatches (map (\<lambda>(filler, url). [hyperlinkRecord url, url]) records) =
     Inr (map (\<lambda>(filler, url). \<lparr>Url = url, IsWorking = False\<rparr>) records)"
  by (induction records) (auto split: prod.splits)

lemma copyEntries_no_match:
  "\<forall>file\<in>set files. \<not> MatchString re (Name file) \<Longrightarrow>
   copyEntries (Some re) files buffer w = (Inr buffer, w)"
  by (induction files) simp_all

lemma copyEntries_content:
  "\<forall>file\<in>set files. MatchString re (Name file) \<longrightarrow> (\<exists>content. Open file = Inr content) \<Longrightarrow>
   copyEntries (Some re) files buffer w = (Inr (buffer @ manifestContent re files), w)"
proof (induction files arbitrary: buffer)
  case Nil
  then show ?case by (simp add: manifestContent_def)
next
  case (Cons entry files)
  then have IH: "copyEntries (Some re) files b w = (Inr (b @ manifestContent re files), w)" for b
    by simp
  show ?case
  proof (cases "MatchString re (Name entry)")
    case True
    with Cons.prems obtain content where "Open entry = Inr content"
      by auto
    with True IH show ?thesis
      by (simp add: manifestContent_def)
  next
    case False
    with IH show ?thesis
      by (simp add: manifestContent_def)
  qed
qed

lemma kind_matcher:
  "kind \<in> {''.docx'', ''.pptx''} \<Longrightarrow> matchers kind = Some (the (matchers kind))"
  by (auto simp: matchers_def)

text \<open>
  Whatever the content, a match of the hyperlink pattern has one group, without a line
  feed, and is not empty; so the loop over the matches never reads out of range.
\<close>

lemma lazyGroup_shape:
  "lazyGroup [Lit dquote] cap s = Some (caps, rest) \<Longrightarrow> newline \<notin> set cap \<Longrightarrow>
   \<exists>u. caps = [u] \<and> newline \<notin> set u \<and> length rest < length s"
proof (induction s arbitrary: cap)
  case Nil
  then show ?case
    by (subst (asm) lazyGroup.simps) simp
next
  case (Cons x xs)
  show ?case
  proof (cases "x = dquote")
    case True
    with Cons.prems show ?thesis
      by (subst (asm) lazyGroup.simps) auto
  next
    case False
    with Cons.prems(1) have nl: "x \<noteq> newline"
      and step: "lazyGroup [Lit dquote] (x # cap) xs = Some (caps, rest)"
      by (subst (asm) lazyGroup.simps, simp split: if_splits)+
    from nl Cons.prems(2) have "newline \<notin> set (x # cap)"
      by simp
    from Cons.IH [OF step this] show ?thesis
      by auto
  qed
qed

lemma matchHere_hyperlink_shape:
  assumes "matchHere hyperlinkItems s = Some (caps, rest)"
  shows "\<exists>u. caps = [u] \<and> newline \<notin> set u \<and> length rest < length s"
proof -
  let ?t = "drop (length recordPrefix) s"
  from assms have m: "matchHere [GroupAnyLazyPlus, Lit dquote] ?t = Some (caps, rest)"
    unfolding hyperlinkItems_def matchHere_plain by (simp split: if_splits)
  then obtain x xs where t: "?t = x # xs" and x: "x \<noteq> newline"
    and l: "lazyGroup [Lit dquote] [x] xs = Some (caps, rest)"
    by (cases ?t) (auto split: if_splits)
  from x have "newline \<notin> set [x]" by simp
  from lazyGroup_shape [OF l this] obtain u where
    u: "caps = [u]" "newline \<notin> set u" "length rest < length xs"
    by blast
  have "length xs < length ?t" by (simp add: t)
  also have "\<dots> \<le> length s" by simp
  finally have "length xs < length s" .
  with u show ?thesis by auto
qed

lemma FindAll_shape:
  "m \<in> set (FindAllStringSubmatch hyperlinkItems s) \<Longrightarrow> length m = 2 \<and> newline \<notin> set (m ! 1)"
proof (induction "length s" arbitrary: s rule: less_induct)
  case less
  show ?case
  proof (cases "matchHere hyperlinkItems s")
    case None
    with less.prems have "\<exists>x xs. s = x # xs \<and> m \<in> set (FindAllStringSubmatch hyperlinkItems xs)"
      by (subst (asm) FindAllStringSubmatch.simps) (auto split: list.splits)
    then obtain x xs where "s = x # xs" "m \<in> set (FindAllStringSubmatch hyperlinkItems xs)"
      by blast
    then show ?thesis
      using less.hyps [of xs] by simp
  next
    case (Some r)
    obtain caps rest where r: "r = (caps, rest)" by (cases r)
    from Some r matchHere_hyperlink_shape obtain u where
      u: "caps = [u]" "newline \<notin> set u" "length rest < length s"
      by blast
    from less.prems Some r u have
      "m = [take (length s - length rest) s, u] \<or> m \<in> set (FindAllStringSubmatch hyperlinkItems rest)"
      by (subst (asm) FindAllStringSubmatch.simps) simp
    then show ?thesis
      using less.hyps [OF u(3)] u(2) by auto
  qed
qed

lemma linksOfMatches_total:
  "\<forall>m\<in>set ms. length m = 2 \<Longrightarrow>
   linksOfMatches ms = Inr (map (\<lambda>m. \<lparr>Url = m ! 1, IsWorking = False\<rparr>) ms)"
  by (induction ms) simp_all

lemma extractHyperlinksFromContent_total:
  "extractHyperlinksFromContent content =
     Inr (filterHyperlinks (map (\<lambda>m. \<lparr>Url = m ! 1, IsWorking = False\<rparr>)
       (FindAllStringSubmatch hyperlinkItems content)))"
  using FindAll_shape linksOfMatches_total [of "FindAllStringSubmatch hyperlinkItems content"]
  by (simp add: extractHyperlinksFromContent_def hyperlink_items)

lemma extracted_link:
  assumes "extractHyperlinksFromContent content = Inr links" and "link \<in> set links"
  shows "kept link \<and> newline \<notin> set (Url link)"
proof -
  from assms have "link \<in> set (filter kept (map (\<lambda>m. \<lparr>Url = m ! 1, IsWorking = False\<rparr>)
       (FindAllStringSubmatch hyperlinkItems content)))"
    by (simp add: extractHyperlinksFromContent_total filterHyperlinks_filter)
  then show ?thesis
    using FindAll_shape by auto
qed

lemma sublist_set: "sublist xs ys \<Longrightarrow> set xs \<subseteq> set ys"
  by (auto simp: sublist_def)

lemma extracted_link_no_pattern:
  assumes "extractHyperlinksFromContent content = Inr links" and "link \<in> set links"
  shows "\<not> sublist ''mailto:'' (Url link) \<and>
     \<not> (\<exists>c d. sublist (''http://office'' @ [c] @ ''microsoft'' @ [d] @ ''com'') (Url link))"
proof -
  from extracted_link [OF assms] have k: "\<not> codeDrops (Url link)" and n: "newline \<notin> set (Url link)"
    by (simp_all add: kept_iff)
  have "\<not> sublist (''http://office'' @ [c] @ ''microsoft'' @ [d] @ ''com'') (Url link)" for c d
  proof
    assume s: "sublist (''http://office'' @ [c] @ ''microsoft'' @ [d] @ ''com'') (Url link)"
    from sublist_set [OF s] n have "c \<noteq> newline" "d \<noteq> newline"
      by auto
    with s k show False
      by (auto simp: codeDrops_def vendorMatch_def)
  qed
  with k show ?thesis
    by (auto simp: codeDrops_def)
qed

text \<open>
  Claim C9, as the code has it.  For a manifest made of hyperlink records with targets
  that are not empty and have no double quote and no line feed, between text in which no
  record begins, \<open>extractHyperlinksFromContent\<close> returns, in the order of the document, the
  targets of the records that the link filter keeps: it ends with \<open>filterHyperlinks\<close>.
  For a document of one of the two kinds whose archive opens and has no entry matching the
  pattern of its kind, \<open>extractHyperlinksFromDocument\<close> returns the empty sequence, no
  error, and logs nothing.  When the matching entries can all be opened, the content
  searched is their contents, one after the other in the order of the archive.  Whatever
  the content, \<open>extractHyperlinksFromContent\<close> returns a sequence of links and does not
  panic.
\<close>

theorem extract_targets_in_order:
  "((\<forall>(filler, url)\<in>set records. noRecordStart filler \<and> wellFormedTarget url) \<and> noRecordStart rest \<longrightarrow>
      extractHyperlinksFromContent (manifest records rest) =
        Inr (filterHyperlinks (map (\<lambda>(filler, url). \<lparr>Url = url, IsWorking = False\<rparr>) records)))
   \<and> (Type document \<in> {''.docx'', ''.pptx''} \<and> OpenReader (Path document) = Inr files \<and>
       (\<forall>file\<in>set files. \<not> MatchString (the (matchers (Type document))) (Name file)) \<longrightarrow>
      extractHyperlinksFromDocument OpenReader document w = (Inr [], w))
   \<and> (Type document \<in> {''.docx'', ''.pptx''} \<and> OpenReader (Path document) = Inr files \<and>
       (\<forall>file\<in>set files. MatchString (the (matchers (Type document))) (Name file) \<longrightarrow>
          (\<exists>content. Open file = Inr content)) \<longrightarrow>
      extractHyperlinksFromDocument OpenReader document w =
        (extractHyperlinksFromContent (manifestContent (the (matchers (Type document))) files), w))
   \<and> (\<exists>links. extractHyperlinksFromContent content = Inr links)"
proof (intro conjI impI)
  assume "(\<forall>(filler, url)\<in>set records. noRecordStart filler \<and> wellFormedTarget url) \<and> noRecordStart rest"
  then show "extractHyperlinksFromContent (manifest records rest) =
        Inr (filterHyperlinks (map (\<lambda>(filler, url). \<lparr>Url = url, IsWorking = False\<rparr>) records))"
    by (simp add: extractHyperlinksFromContent_def hyperlink_items FindAll_manifest
        linksOfMatches_records)
next
  assume a: "Type document \<in> {''.docx'', ''.pptx''} \<and> OpenReader (Path document) = Inr files \<and>
       (\<forall>file\<in>set files. \<not> MatchString (the (matchers (Type document))) (Name file))"
  then have "getLinkFileContent OpenReader document w = (Inr [], w)"
    using kind_matcher [of "Type document"]
      copyEntries_no_match [of files "the (matchers (Type document))" "[]" w]
    by (simp add: getLinkFileContent_def)
  moreover have "extractHyperlinksFromContent [] = Inr []"
    by (simp add: extractHyperlinksFromContent_def hyperlink_items FindAll_Nil_input
        filterHyperlinks_def)
  ultimately show "extractHyperlinksFromDocument OpenReader document w = (Inr [], w)"
    by (simp add: extractHyperlinksFromDocument_def)
next
  assume a: "Type document \<in> {''.docx'', ''.pptx''} \<and> OpenReader (Path document) = Inr files \<and>
       (\<forall>file\<in>set files. MatchString (the (matchers (Type document))) (Name file) \<longrightarrow>
          (\<exists>content. Open file = Inr content))"
  then have "getLinkFileContent OpenReader document w =
      (Inr (manifestContent (the (matchers (Type document))) files), w)"
    using kind_matcher [of "Type document"]
      copyEntries_content [of files "the (matchers (Type document))" "[]" w]
    by (simp add: getLinkFileContent_def)
  then show "extractHyperlinksFromDocument OpenReader document w =
        (extractHyperlinksFromContent (manifestContent (the (matchers (Type document))) files), w)"
    by (simp add: extractHyperlinksFromDocument_def)
next
  show "\<exists>links. extractHyperlinksFromContent content = Inr links"
    by (simp add: extractHyperlinksFromContent_total)
qed

theorem extract_targets_in_order_witness:
  "list_all (\<lambda>(filler, url). noRecordStart filler \<and> wellFormedTarget url) exampleRecords
   \<and> noRecordStart exampleRest
   \<and> map snd exampleRecords =
       [''http://ok.example/'', ''mailto:someone@example.com'', ''http://dead.example/'']
   \<and> extractHyperlinksFromContent (manifest exampleRecords exampleRest) =
       Inr [\<lparr>Url = ''http://ok.example/'', IsWorking = False\<rparr>,
            \<lparr>Url = ''http://dead.example/'', IsWorking = False\<rparr>]
   \<and> extractHyperlinksFromDocument exampleArchives emptyPresentation exampleWorld =
       (Inr [], exampleWorld)
   \<and> extractHyperlinksFromDocument exampleArchives exampleDocument exampleWorld =
       (extractHyperlinksFromContent (manifest exampleRecords exampleRest), exampleWorld)"
proof -
  have records: "list_all (\<lambda>(filler, url). noRecordStart filler \<and> wellFormedTarget url) exampleRecords"
    by code_simp
  have rest: "noRecordStart exampleRest"
    by code_simp
  have targets: "map snd exampleRecords =
      [''http://ok.example/'', ''mailto:someone@example.com'', ''http://dead.example/'']"
    by code_simp
  have filtered: "filterHyperlinks (map (\<lambda>(filler, url). \<lparr>Url = url, IsWorking = False\<rparr>) exampleRecords) =
      [\<lparr>Url = ''http://ok.example/'', IsWorking = False\<rparr>,
       \<lparr>Url = ''http://dead.example/'', IsWorking = False\<rparr>]"
    by code_simp
  have archive: "Type emptyPresentation \<in> {''.docx'', ''.pptx''}
      \<and> exampleArchives (Path emptyPresentation) =
          Inr [\<lparr>Name = ''ppt/presentation.xml'', Open = Inr ''<p/>''\<rparr>]
      \<and> (\<forall>file\<in>set [\<lparr>Name = ''ppt/presentation.xml'', Open = Inr ''<p/>''\<rparr>].
            \<not> MatchString (the (matchers (Type emptyPresentation))) (Name file))"
    by code_simp
  have opened: "Type exampleDocument \<in> {''.docx'', ''.pptx''}
      \<and> exampleArchives (Path exampleDocument) =
          Inr [\<lparr>Name = ''word/_rels/document.xml.rels'', Open = Inr exampleManifest\<rparr>]
      \<and> (\<forall>file\<in>set [\<lparr>Name = ''word/_rels/document.xml.rels'', Open = Inr exampleManifest\<rparr>].
            MatchString (the (matchers (Type exampleDocument))) (Name file) \<longrightarrow>
              (\<exists>content. Open file = Inr content))"
    by (simp add: exampleDocument_def exampleArchives_def)
  have content: "manifestContent (the (matchers (Type exampleDocument)))
      [\<lparr>Name = ''word/_rels/document.xml.rels'', Open = Inr exampleManifest\<rparr>] =
      manifest exampleRecords exampleRest"
    by (simp add: manifestContent_def exampleDocument_def matchers_def exampleManifest_def
        newline_def)
  from records have records': "\<forall>(filler, url)\<in>set exampleRecords. noRecordStart filler \<and> wellFormedTarget url"
    by (simp add: list_all_iff)
  have first: "extractHyperlinksFromContent (manifest exampleRecords exampleRest) =
       Inr [\<lparr>Url = ''http://ok.example/'', IsWorking = False\<rparr>,
            \<lparr>Url = ''http://dead.example/'', IsWorking = False\<rparr>]"
    using records' rest filtered
      extract_targets_in_order [of exampleRecords exampleRest emptyPresentation exampleArchives
        "[\<lparr>Name = ''ppt/presentation.xml'', Open = Inr ''<p/>''\<rparr>]" exampleWorld]
    by simp
  have second: "extractHyperlinksFromDocument exampleArchives emptyPresentation exampleWorld =
       (Inr [], exampleWorld)"
    using archive
      extract_targets_in_order [of exampleRecords exampleRest emptyPresentation exampleArchives
        "[\<lparr>Name = ''ppt/presentation.xml'', Open = Inr ''<p/>''\<rparr>]" exampleWorld]
    by simp
  have third: "extractHyperlinksFromDocument exampleArchives exampleDocument exampleWorld =
       (extractHyperlinksFromContent (manifest exampleRecords exampleRest), exampleWorld)"
    using opened content
      extract_targets_in_order [of exampleRecords exampleRest exampleDocument exampleArchives
        "[\<lparr>Name = ''word/_rels/document.xml.rels'', Open = Inr exampleManifest\<rparr>]" exampleWorld]
    by simp
  from records rest targets first second third show ?thesis
    by simp
qed

text \<open>
  Claim C9 as stated fails: the manifest of the example has three hyperlink records, and
  the target of the second one, a \<open>mailto:\<close> address, is not in the sequence returned.
\<close>

theorem extract_every_target_counterexample:
  "map snd exampleRecords =
     [''http://ok.example/'', ''mailto:someone@example.com'', ''http://dead.example/'']
   \<and> extractHyperlinksFromContent (manifest exampleRecords exampleRest) =
       Inr [\<lparr>Url = ''http://ok.example/'', IsWorking = False\<rparr>,
            \<lparr>Url = ''http://dead.example/'', IsWorking = False\<rparr>]"
  by code_simp

section \<open>The exclusions of the filter\<close>

text \<open>
  Claim C10.  The two exclusions are substring matches over the whole URL: a link whose URL
  contains \<open>mailto:\<close> anywhere, or contains \<open>http://office\<close>, any character,
  \<open>microsoft\<close>, any character, \<open>com\<close>, is not in the output of the filter.  The dot of
  Go's \<open>regexp\<close> matches any character but the line feed; no URL that the extractor hands
  to the filter has one, so of the links extracted from any content none has \<open>mailto:\<close>
  or the pattern, with any two characters whatever, anywhere in its URL.
\<close>

theorem filterHyperlinks_unanchored:
  "(sublist ''mailto:'' (Url link) \<or>
      (\<exists>c d. c \<noteq> newline \<and> d \<noteq> newline \<and>
         sublist (''http://office'' @ [c] @ ''microsoft'' @ [d] @ ''com'') (Url link)) \<longrightarrow>
      link \<notin> set (filterHyperlinks hyperlinks))
   \<and> (extractHyperlinksFromContent content = Inr links \<and> link' \<in> set links \<longrightarrow>
      \<not> sublist ''mailto:'' (Url link') \<and>
      \<not> (\<exists>c d. sublist (''http://office'' @ [c] @ ''microsoft'' @ [d] @ ''com'') (Url link')))"
proof (intro conjI impI)
  assume "sublist ''mailto:'' (Url link) \<or>
      (\<exists>c d. c \<noteq> newline \<and> d \<noteq> newline \<and>
         sublist (''http://office'' @ [c] @ ''microsoft'' @ [d] @ ''com'') (Url link))"
  then show "link \<notin> set (filterHyperlinks hyperlinks)"
    by (auto simp: filterHyperlinks_filter kept_iff codeDrops_def vendorMatch_def)
next
  assume a: "extractHyperlinksFromContent content = Inr links \<and> link' \<in> set links"
  then show "\<not> sublist ''mailto:'' (Url link')"
    using extracted_link_no_pattern by blast
  from a show "\<not> (\<exists>c d. sublist (''http://office'' @ [c] @ ''microsoft'' @ [d] @ ''com'') (Url link'))"
    using extracted_link_no_pattern by blast
qed

theorem filterHyperlinks_unanchored_witness:
  "sublist ''mailto:'' (Url mailInQuery) \<and> \<not> prefix ''mailto:'' (Url mailInQuery)
   \<and> mailInQuery \<notin> set (filterHyperlinks [mailInQuery, \<lparr>Url = ''http://example.com/'', IsWorking = False\<rparr>])
   \<and> extractHyperlinksFromContent (manifest exampleRecords exampleRest) =
       Inr [\<lparr>Url = ''http://ok.example/'', IsWorking = False\<rparr>,
            \<lparr>Url = ''http://dead.example/'', IsWorking = False\<rparr>]
   \<and> \<not> sublist ''mailto:'' ''http://dead.example/''"
proof -
  have h: "sublist ''mailto:'' (Url mailInQuery)"
    by code_simp
  have p: "\<not> prefix ''mailto:'' (Url mailInQuery)"
    by code_simp
  have e: "extractHyperlinksFromContent (manifest exampleRecords exampleRest) =
       Inr [\<lparr>Url = ''http://ok.example/'', IsWorking = False\<rparr>,
            \<lparr>Url = ''http://dead.example/'', IsWorking = False\<rparr>]"
    by code_simp
  show ?thesis
    using h p e
      filterHyperlinks_unanchored [of mailInQuery
        "[mailInQuery, \<lparr>Url = ''http://example.com/'', IsWorking = False\<rparr>]"
        "manifest exampleRecords exampleRest"
        "[\<lparr>Url = ''http://ok.example/'', IsWorking = False\<rparr>,
          \<lparr>Url = ''http://dead.example/'', IsWorking = False\<rparr>]"
        "\<lparr>Url = ''http://dead.example/'', IsWorking = False\<rparr>"]
    by simp
qed

section \<open>Properties of the report\<close>

lemma checkLinks_eq:
  "checkLinks links (isValid, result) =
     (isValid \<and> list_all IsWorking links, result \<and> list_all IsWorking links)"
  by (induction links arbitrary: isValid result) auto

lemma checkDocuments_eq:
  "checkDocuments documents result =
     (map (\<lambda>d. d\<lparr>IsValid := list_all IsWorking (Hyperlinks d)\<rparr>) documents,
      result \<and> list_all (\<lambda>d. list_all IsWorking (Hyperlinks d)) documents)"
  by (induction documents arbitrary: result) (auto simp: checkLinks_eq)

lemma main_report:
  assumes "main visits OpenReader Do now w = (Inr report, w')"
  obtains documents where
    "getAndCheckFilesInDirectory visits OpenReader Do w = (Inr documents, w')"
    "Documents report = map (\<lambda>d. d\<lparr>IsValid := list_all IsWorking (Hyperlinks d)\<rparr>) documents"
    "ResultOfValidation report = list_all (\<lambda>d. list_all IsWorking (Hyperlinks d)) documents"
    "InvalidHyperlinks report = []"
  using assms
  by (auto simp: main_def checkDocuments_eq split: prod.splits sum.splits if_splits)

lemma example_run:
  "main exampleVisits exampleArchives exampleTransport exampleNow exampleWorld =
     (Inr exampleReport, exampleWorld)"
  by code_simp

text \<open>
  Claim C2.  In the report of a run that completes, a document is valid if and only if
  every one of its links is working; a document without links is valid.
\<close>

theorem document_valid_iff_links_working:
  assumes "main visits OpenReader Do now w = (Inr report, w')"
    and "document \<in> set (Documents report)"
  shows "(IsValid document \<longleftrightarrow> (\<forall>link\<in>set (Hyperlinks document). IsWorking link))
     \<and> (Hyperlinks document = [] \<longrightarrow> IsValid document)"
proof -
  from assms(1) obtain documents where
    docs: "Documents report = map (\<lambda>d. d\<lparr>IsValid := list_all IsWorking (Hyperlinks d)\<rparr>) documents"
    by (rule main_report)
  from assms(2) docs obtain d where
    "document = d\<lparr>IsValid := list_all IsWorking (Hyperlinks d)\<rparr>"
    by auto
  then show ?thesis
    by (simp add: list_all_iff)
qed

theorem document_valid_iff_links_working_witness:
  "main exampleVisits exampleArchives exampleTransport exampleNow exampleWorld =
     (Inr exampleReport, exampleWorld)
   \<and> length (Documents exampleReport) = 2
   \<and> (IsValid (Documents exampleReport ! 0) \<longleftrightarrow>
        (\<forall>link\<in>set (Hyperlinks (Documents exampleReport ! 0)). IsWorking link))
   \<and> Hyperlinks (Documents exampleReport ! 1) = []
   \<and> IsValid (Documents exampleReport ! 1)"
  using example_run
    document_valid_iff_links_working [OF example_run, of "Documents exampleReport ! 0"]
    document_valid_iff_links_working [OF example_run, of "Documents exampleReport ! 1"]
  by (simp add: exampleReport_def)

text \<open>
  The part of the invariant of the report that \<open>main\<close> keeps.  In the report of a run
  that completes, the overall validity is true if and only if no document of the report
  has a broken link, and if and only if every document of the report is valid.
\<close>

theorem report_valid_iff_no_broken_link:
  assumes "main visits OpenReader Do now w = (Inr report, w')"
  shows "(ResultOfValidation report \<longleftrightarrow>
            (\<forall>document\<in>set (Documents report). \<forall>link\<in>set (Hyperlinks document). IsWorking link))
     \<and> (ResultOfValidation report \<longleftrightarrow> (\<forall>document\<in>set (Documents report). IsValid document))"
proof -
  from assms obtain documents where
    docs: "Documents report = map (\<lambda>d. d\<lparr>IsValid := list_all IsWorking (Hyperlinks d)\<rparr>) documents"
    and res: "ResultOfValidation report = list_all (\<lambda>d. list_all IsWorking (Hyperlinks d)) documents"
    by (rule main_report)
  show ?thesis
    by (simp add: docs res list_all_iff)
qed

theorem report_valid_iff_no_broken_link_example:
  "main exampleVisits exampleArchives exampleTransport exampleNow exampleWorld =
     (Inr exampleReport, exampleWorld)
   \<and> \<not> ResultOfValidation exampleReport
   \<and> \<not> IsWorking (Hyperlinks (Documents exampleReport ! 0) ! 1)
   \<and> \<not> IsValid (Documents exampleReport ! 0)"
  using example_run report_valid_iff_no_broken_link [OF example_run]
  by (simp add: exampleReport_def)

text \<open>
  The other part \<open>main\<close> does not keep: it never assigns \<open>InvalidHyperlinks\<close>, the list
  of broken links that \<open>Report\<close> declares, so the list of every report is empty.
\<close>

lemma report_broken_list_always_empty:
  assumes "main visits OpenReader Do now w = (Inr report, w')"
  shows "InvalidHyperlinks report = []"
  using assms by (rule main_report)

text \<open>
  Claim C1 does not hold of the code.  The claim is that the overall validity of a report
  is true if and only if no document has a broken link, and if and only if the list
  \<open>InvalidHyperlinks\<close> is empty, every broken link being in that list.  The run of the
  example completes with a broken link in its first document and the overall validity
  false, and the list \<open>InvalidHyperlinks\<close> of its report is empty: the broken link is
  not in it.
\<close>

theorem report_broken_list_missing:
  "main exampleVisits exampleArchives exampleTransport exampleNow exampleWorld =
     (Inr exampleReport, exampleWorld)
   \<and> \<lparr>Url = ''http://dead.example/'', IsWorking = False\<rparr> \<in> set (Hyperlinks (Documents exampleReport ! 0))
   \<and> \<lparr>Url = ''http://dead.example/'', IsWorking = False\<rparr> \<notin> set (InvalidHyperlinks exampleReport)
   \<and> \<not> (ResultOfValidation exampleReport \<longleftrightarrow> InvalidHyperlinks exampleReport = [])"
  using example_run by (simp add: exampleReport_def)

section \<open>A document that cannot be read\<close>

text \<open>
  Claim C3 does not hold of the code.  With \<open>broken.docx\<close>, which is not a zip archive,
  in the directory, the run logs the failure and then ends in a panic on the nil archive:
  no report is made and \<open>a.docx\<close> is never read.  The same happens when the manifest
  entry of an archive cannot be opened.
\<close>

theorem corrupt_archive_panics:
  "main corruptVisits exampleArchives exampleTransport exampleNow \<lparr>Log = [], Net = ()\<rparr> =
     (Inl NilPointerDereference, \<lparr>Log = [''ERROR: could not open the file''], Net = ()\<rparr>)
   \<and> main exampleVisits unreadableEntryArchives exampleTransport exampleNow \<lparr>Log = [], Net = ()\<rparr> =
     (Inl NilPointerDereference, \<lparr>Log = [''ERROR: coult not read file content''], Net = ()\<rparr>)"
  by code_simp

end
